theory Spec2Isabelle
  imports Main
begin

section \<open>The imaging library and the environment of the script\<close>

text \<open>
  The script \<^verbatim>\<open>generate_icons.py\<close> draws with the Pillow imaging library and writes
  files. The library is not part of the repository, so the model keeps of it what the
  script can observe: an image is its mode, its pixel dimensions, its background colour
  and the list of shapes drawn on it, in drawing order, each with the coordinates and the
  colour specifier the script passed. Colour specifiers stay the strings of the source.
  Every call that can raise returns a sum, \<open>Inl\<close> carrying the class of the exception
  (its message varies with the version of the library and is left out).
\<close>

type_synonym path = string
type_synonym point = "int \<times> int"
type_synonym box = "int \<times> int \<times> int \<times> int"

datatype error =
    ValueError
  | TypeError
  | OverflowError
  | MemoryError
  | UnicodeEncodeError
  | OSError path

datatype shape =
    Ellipse box string
  | Polygon "point list" string

record image =
  mode :: string
  width :: int
  height :: int
  background :: string
  drawn :: "shape list"

definition mode_bands :: "string \<Rightarrow> nat option" where
  \<comment> \<open>Number of colour channels of an image mode of the library.\<close>
  "mode_bands = map_of
     [(''1'', 1), (''L'', 1), (''P'', 1), (''I'', 1), (''F'', 1),
      (''LA'', 2), (''PA'', 2),
      (''RGB'', 3), (''YCbCr'', 3), (''LAB'', 3), (''HSV'', 3),
      (''RGBA'', 4), (''RGBX'', 4), (''RGBa'', 4), (''CMYK'', 4)]"

definition INT_MAX :: int where
  \<comment> \<open>The largest value of the C type \<^verbatim>\<open>int\<close> in which the library keeps a dimension.\<close>
  "INT_MAX = 2147483647"

definition Image_new_RGB :: "int \<times> int \<Rightarrow> string \<Rightarrow> error + image" where
  \<comment> \<open>\<^verbatim>\<open>Image.new('RGB', size, color)\<close>. A negative dimension raises \<^verbatim>\<open>ValueError\<close>; a
      dimension of 0 is accepted and gives an empty image; a dimension that does not fit
      a C \<^verbatim>\<open>int\<close> raises \<^verbatim>\<open>OverflowError\<close>; a width beyond the line-size limit of the
      library raises \<^verbatim>\<open>MemoryError\<close>. Whether the machine has the memory for a large
      image below that limit is not modelled.\<close>
  "Image_new_RGB sz color =
     (case sz of (w, h) \<Rightarrow>
        if w < 0 \<or> h < 0 then Inl ValueError
        else if INT_MAX < w \<or> INT_MAX < h then Inl OverflowError
        else if INT_MAX div 4 - 1 < w then Inl MemoryError
        else Inr \<lparr>mode = ''RGB'', width = w, height = h, background = color, drawn = []\<rparr>)"

definition ellipse :: "image \<Rightarrow> box \<Rightarrow> string \<Rightarrow> error + image" where
  \<comment> \<open>\<^verbatim>\<open>draw.ellipse([x0, y0, x1, y1], fill=...)\<close>: the bounding box must be ordered.
      Drawing clips to the canvas and never changes the dimensions.\<close>
  "ellipse img xy fill =
     (case xy of (x0, y0, x1, y1) \<Rightarrow>
        if x1 < x0 then Inl ValueError
        else if y1 < y0 then Inl ValueError
        else Inr (img\<lparr>drawn := drawn img @ [Ellipse xy fill]\<rparr>))"

definition polygon :: "image \<Rightarrow> point list \<Rightarrow> string \<Rightarrow> error + image" where
  \<comment> \<open>\<^verbatim>\<open>draw.polygon(points, fill=...)\<close>: at least two points are required.\<close>
  "polygon img pts fill =
     (if length pts < 2 then Inl TypeError
      else Inr (img\<lparr>drawn := drawn img @ [Polygon pts fill]\<rparr>))"

text \<open>
  The environment: the files under each path, the texts printed so far, which paths can
  be opened for writing (the directory exists and is writable, the file is not
  protected), and which texts with characters outside ASCII the output stream can
  encode. A stored file is a PNG encoding of an image, or the remains of a write that
  failed.
\<close>

datatype stored = PNG image | Damaged

record world =
  files :: "path \<rightharpoonup> stored"
  stdout :: "string list"
  can_open :: "path \<Rightarrow> bool"
  can_encode :: "string \<Rightarrow> bool"

definition save_png :: "image \<Rightarrow> path \<Rightarrow> world \<Rightarrow> (error + unit) \<times> world" where
  \<comment> \<open>\<^verbatim>\<open>img.save(filename, 'PNG')\<close>: the file is opened for writing (an \<^verbatim>\<open>OSError\<close> when
      that fails, and then nothing is written), the previous content is replaced. An
      image without pixels is refused with a \<^verbatim>\<open>ValueError\<close> once the file is open; the
      library then removes the file if the call created it.\<close>
  "save_png img p w =
     (if \<not> can_open w p then (Inl (OSError p), w)
      else if width img \<le> 0 \<or> height img \<le> 0 then
        (Inl ValueError,
         (case files w p of None \<Rightarrow> w | Some _ \<Rightarrow> w\<lparr>files := (files w)(p \<mapsto> Damaged)\<rparr>))
      else (Inr (), w\<lparr>files := (files w)(p \<mapsto> PNG img)\<rparr>))"

definition is_ascii :: "string \<Rightarrow> bool" where
  "is_ascii s = list_all (\<lambda>c. of_char c < (128::nat)) s"

definition print :: "string \<Rightarrow> world \<Rightarrow> (error + unit) \<times> world" where
  \<comment> \<open>\<^verbatim>\<open>print(s)\<close>: the text is encoded for the output stream and written. ASCII text
      can always be encoded; other text raises \<^verbatim>\<open>UnicodeEncodeError\<close> when the stream
      cannot encode it, and then nothing is written.\<close>
  "print s w =
     (if is_ascii s \<or> can_encode w s then (Inr (), w\<lparr>stdout := stdout w @ [s]\<rparr>)
      else (Inl UnicodeEncodeError, w))"

subsection \<open>Formatting and paths\<close>

definition digit :: "nat \<Rightarrow> char" where
  "digit d = ''0123456789'' ! d"

fun str_nat :: "nat \<Rightarrow> string" where
  "str_nat n = (if n < 10 then [digit n] else str_nat (n div 10) @ [digit (n mod 10)])"

declare str_nat.simps [simp del]

definition str :: "int \<Rightarrow> string" where
  \<comment> \<open>Python's \<^verbatim>\<open>str\<close> on an integer, as an f-string formats it.\<close>
  "str i = (if i < 0 then CHR ''-'' # str_nat (nat (- i)) else str_nat (nat i))"

definition os_path_join :: "path \<Rightarrow> path \<Rightarrow> path" where
  \<comment> \<open>\<^verbatim>\<open>os.path.join(a, b)\<close> on a POSIX system.\<close>
  "os_path_join a b =
     (if b \<noteq> [] \<and> hd b = CHR ''/'' then b
      else if a = [] \<or> last a = CHR ''/'' then a @ b
      else a @ ''/'' @ b)"

section \<open>The script\<close>

definition draw_icon :: "int \<Rightarrow> error + image" where
  \<comment> \<open>Lines 12 to 36 of \<^verbatim>\<open>create_icon\<close>: the image is created and drawn in memory.\<close>
  "draw_icon sz =
     (case Image_new_RGB (sz, sz) ''#007AFF'' of
        Inl e \<Rightarrow> Inl e
      | Inr img \<Rightarrow>
          let margin = sz div 8 in
          (case ellipse img (margin, margin, sz - margin, sz - margin) ''white'' of
             Inl e \<Rightarrow> Inl e
           | Inr img \<Rightarrow>
               let pin_size = sz div 4;
                   pin_x = sz div 2;
                   pin_y = sz div 2 + pin_size div 4;
                   points = [(pin_x, pin_y - pin_size div 2),
                             (pin_x - pin_size div 3, pin_y + pin_size div 4),
                             (pin_x + pin_size div 3, pin_y + pin_size div 4)]
               in
               (case polygon img points ''#007AFF'' of
                  Inl e \<Rightarrow> Inl e
                | Inr img \<Rightarrow>
                    let circle_size = pin_size div 3 in
                    ellipse img
                      (pin_x - circle_size div 2, pin_y + pin_size div 4 - circle_size div 2,
                       pin_x + circle_size div 2, pin_y + pin_size div 4 + circle_size div 2)
                      ''#007AFF'')))"

definition create_icon :: "int \<Rightarrow> path \<Rightarrow> world \<Rightarrow> (error + unit) \<times> world" where
  \<comment> \<open>\<^verbatim>\<open>create_icon(size, filename)\<close>: draw, save (line 39), print (line 40).\<close>
  "create_icon sz filename w =
     (case draw_icon sz of
        Inl e \<Rightarrow> (Inl e, w)
      | Inr img \<Rightarrow>
          (case save_png img filename w of
             (Inl e, w') \<Rightarrow> (Inl e, w')
           | (Inr _, w') \<Rightarrow>
               print (''Created '' @ filename @ '' ('' @ str sz @ ''x'' @ str sz @ '')'') w'))"

definition icon_dir :: path where
  "icon_dir = ''LocationTracker/Assets.xcassets/AppIcon.appiconset''"

definition icons :: "(int \<times> string) list" where
  "icons =
     [(40, ''Icon-App-20x20@2x.png''),
      (60, ''Icon-App-20x20@3x.png''),
      (58, ''Icon-App-29x29@2x.png''),
      (87, ''Icon-App-29x29@3x.png''),
      (80, ''Icon-App-40x40@2x.png''),
      (120, ''Icon-App-40x40@3x.png''),
      (120, ''Icon-App-60x60@2x.png''),
      (180, ''Icon-App-60x60@3x.png''),
      (20, ''Icon-App-20x20@1x.png''),
      (40, ''Icon-App-20x20@2x.png''),
      (29, ''Icon-App-29x29@1x.png''),
      (58, ''Icon-App-29x29@2x.png''),
      (40, ''Icon-App-40x40@1x.png''),
      (80, ''Icon-App-40x40@2x.png''),
      (152, ''Icon-App-76x76@2x.png''),
      (167, ''Icon-App-83.5x83.5@2x.png''),
      (1024, ''Icon-App-1024x1024@1x.png'')]"

fun create_each :: "(int \<times> string) list \<Rightarrow> world \<Rightarrow> (error + unit) \<times> world" where
  \<comment> \<open>The loop of lines 68 to 70; an exception leaves it at once.\<close>
  "create_each [] w = (Inr (), w)"
| "create_each ((sz, filename) # rest) w =
     (let filepath = os_path_join icon_dir filename in
      case create_icon sz filepath w of
        (Inl e, w') \<Rightarrow> (Inl e, w')
      | (Inr _, w') \<Rightarrow> create_each rest w')"

definition msg_all_generated :: string where
  \<comment> \<open>The first summary line: a newline, U+2705 in UTF-8, the text.\<close>
  "msg_all_generated =
     [CHR 0x0A, CHR 0xE2, CHR 0x9C, CHR 0x85] @ '' All app icons generated successfully!''"

definition msg_critical :: string where
  \<comment> \<open>The second summary line: U+1F4F1 in UTF-8, the text.\<close>
  "msg_critical =
     [CHR 0xF0, CHR 0x9F, CHR 0x93, CHR 0xB1]
     @ '' The critical 120x120 icon (Icon-App-60x60@2x.png) has been created!''"

definition main :: "world \<Rightarrow> (error + unit) \<times> world" where
  "main w =
     (case create_each icons w of
        (Inl e, w') \<Rightarrow> (Inl e, w')
      | (Inr _, w') \<Rightarrow>
          (case print msg_all_generated w' of
             (Inl e, w'') \<Rightarrow> (Inl e, w'')
           | (Inr _, w'') \<Rightarrow> print msg_critical w''))"

definition script :: "world \<Rightarrow> int \<times> world" where
  \<comment> \<open>Running the file: \<^verbatim>\<open>main()\<close> is called; an exception that nothing handles ends the
      interpreter with exit status 1, a normal end with 0.\<close>
  "script w = (case main w of (Inl e, w') \<Rightarrow> (1, w') | (Inr _, w') \<Rightarrow> (0, w'))"

subsection \<open>Notions for stating the properties\<close>

definition table_path :: "int \<times> string \<Rightarrow> path" where
  \<comment> \<open>Line 69: where the entry of the table is written.\<close>
  "table_path e = os_path_join icon_dir (snd e)"

definition progress_line :: "path \<Rightarrow> int \<Rightarrow> string" where
  \<comment> \<open>Line 40: the text that \<^verbatim>\<open>create_icon\<close> prints.\<close>
  "progress_line p s = ''Created '' @ p @ '' ('' @ str s @ ''x'' @ str s @ '')''"

definition created_line :: "int \<times> string \<Rightarrow> string" where
  \<comment> \<open>Line 40, for an entry of the table: the progress line of that entry.\<close>
  "created_line e =
     ''Created '' @ table_path e @ '' ('' @ str (fst e) @ ''x'' @ str (fst e) @ '')''"

definition plain_entry :: "int \<times> string \<Rightarrow> bool" where
  \<comment> \<open>An entry whose image the library creates and whose progress line is ASCII.\<close>
  "plain_entry e \<longleftrightarrow>
     0 < fst e \<and> fst e \<le> INT_MAX div 4 - 1 \<and> is_ascii (created_line e)"

definition fresh_world :: world where
  \<comment> \<open>An environment for the concrete runs below: no file yet, nothing printed, every
      path can be written, every text can be encoded.\<close>
  "fresh_world =
     \<lparr>files = Map.empty, stdout = [], can_open = (\<lambda>p. True), can_encode = (\<lambda>s. True)\<rparr>"

definition blocked_world :: world where
  \<comment> \<open>As \<open>fresh_world\<close>, but the file of the fourth entry of the table cannot be
      written.\<close>
  "blocked_world = fresh_world
     \<lparr>can_open :=
        (\<lambda>p. p \<noteq> ''LocationTracker/Assets.xcassets/AppIcon.appiconset/Icon-App-29x29@3x.png'')\<rparr>"

definition readonly_world :: world where
  \<comment> \<open>As \<open>fresh_world\<close>, but no path can be written.\<close>
  "readonly_world = fresh_world\<lparr>can_open := (\<lambda>p. False)\<rparr>"

definition ascii_world :: world where
  \<comment> \<open>As \<open>fresh_world\<close>, but the output stream encodes ASCII only.\<close>
  "ascii_world = fresh_world\<lparr>can_encode := (\<lambda>s. False)\<rparr>"

definition icon_120 :: image where
  \<comment> \<open>The image that the concrete runs at size 120 produce.\<close>
  "icon_120 =
     \<lparr>mode = ''RGB'', width = 120, height = 120, background = ''#007AFF'',
      drawn = [Ellipse (15, 15, 105, 105) ''white'',
               Polygon [(60, 52), (50, 74), (70, 74)] ''#007AFF'',
               Ellipse (55, 69, 65, 79) ''#007AFF'']\<rparr>"

definition spec_table :: "(int \<times> string) list" where
  \<comment> \<open>The table of section 6 of the specification, row by row, to be compared with
      \<open>icons\<close>.\<close>
  "spec_table =
     [(20, ''Icon-App-20x20@1x.png''),
      (40, ''Icon-App-20x20@2x.png''),
      (60, ''Icon-App-20x20@3x.png''),
      (29, ''Icon-App-29x29@1x.png''),
      (58, ''Icon-App-29x29@2x.png''),
      (87, ''Icon-App-29x29@3x.png''),
      (40, ''Icon-App-40x40@1x.png''),
      (80, ''Icon-App-40x40@2x.png''),
      (120, ''Icon-App-40x40@3x.png''),
      (120, ''Icon-App-60x60@2x.png''),
      (180, ''Icon-App-60x60@3x.png''),
      (152, ''Icon-App-76x76@2x.png''),
      (167, ''Icon-App-83.5x83.5@2x.png''),
      (1024, ''Icon-App-1024x1024@1x.png'')]"


definition accented_png :: path where
  \<comment> \<open>A file name outside ASCII for the concrete runs below: U+00E9 in UTF-8, then
      \<^verbatim>\<open>.png\<close>.\<close>
  "accented_png = [CHR 0xC3, CHR 0xA9] @ ''.png''"

section \<open>Drawing one icon\<close>

lemma mode_bands_RGB: "mode_bands ''RGB'' = Some 3"
  by (simp add: mode_bands_def)

lemma draw_steps:
  assumes "m \<le> s - m" "0 \<le> r"
  shows "(case ellipse im (m, m, s - m, s - m) white of
            Inl e \<Rightarrow> Inl e
          | Inr img \<Rightarrow>
              (case polygon img [p1, p2, p3] c of
                 Inl e \<Rightarrow> Inl e
               | Inr img \<Rightarrow> ellipse img (x - r, y - r, x + r, y + r) c))
         = Inr (im\<lparr>drawn := drawn im @
                  [Ellipse (m, m, s - m, s - m) white, Polygon [p1, p2, p3] c,
                   Ellipse (x - r, y - r, x + r, y + r) c]\<rparr>)"
  using assms by (simp add: ellipse_def polygon_def)

lemma draw_icon_nonneg:
  assumes "0 \<le> s" "s \<le> INT_MAX div 4 - 1"
  shows "draw_icon s = Inr
     \<lparr>mode = ''RGB'', width = s, height = s, background = ''#007AFF'',
      drawn =
        [Ellipse (s div 8, s div 8, s - s div 8, s - s div 8) ''white'',
         Polygon [(s div 2, s div 2 + s div 4 div 4 - s div 4 div 2),
                  (s div 2 - s div 4 div 3, s div 2 + s div 4 div 4 + s div 4 div 4),
                  (s div 2 + s div 4 div 3, s div 2 + s div 4 div 4 + s div 4 div 4)] ''#007AFF'',
         Ellipse (s div 2 - s div 4 div 3 div 2,
                  s div 2 + s div 4 div 4 + s div 4 div 4 - s div 4 div 3 div 2,
                  s div 2 + s div 4 div 3 div 2,
                  s div 2 + s div 4 div 4 + s div 4 div 4 + s div 4 div 3 div 2) ''#007AFF'']\<rparr>"
proof -
  have new: "Image_new_RGB (s, s) ''#007AFF''
      = Inr \<lparr>mode = ''RGB'', width = s, height = s, background = ''#007AFF'', drawn = []\<rparr>"
    using assms by (simp add: Image_new_RGB_def INT_MAX_def)
  have m: "s div 8 \<le> s - s div 8"
    using assms(1) by linarith
  have c: "0 \<le> s div 4 div 3 div 2"
    using assms(1) by (simp add: pos_imp_zdiv_nonneg_iff)
  show ?thesis
    unfolding draw_icon_def new sum.case Let_def
    by (subst draw_steps [OF m c]) simp
qed

lemma draw_icon_neg: "s < 0 \<Longrightarrow> draw_icon s = Inl ValueError"
  by (simp add: draw_icon_def Image_new_RGB_def)

lemma draw_icon_new_error:
  "Image_new_RGB (s, s) ''#007AFF'' = Inl e \<Longrightarrow> draw_icon s = Inl e"
  by (simp add: draw_icon_def)

lemma Image_new_RGB_big:
  "INT_MAX div 4 - 1 < s \<Longrightarrow>
     Image_new_RGB (s, s) c = Inl (if INT_MAX < s then OverflowError else MemoryError)"
  by (simp add: Image_new_RGB_def INT_MAX_def)

lemma draw_icon_Inr:
  assumes "draw_icon s = Inr img"
  shows "0 \<le> s \<and> s \<le> INT_MAX div 4 - 1"
proof -
  have "\<not> s < 0"
    using assms draw_icon_neg [of s] by auto
  moreover have "\<not> INT_MAX div 4 - 1 < s"
    using assms draw_icon_new_error [OF Image_new_RGB_big, of s] by auto
  ultimately show ?thesis by simp
qed

lemma draw_icon_dims:
  assumes "draw_icon s = Inr img"
  shows "0 \<le> s \<and> width img = s \<and> height img = s"
proof -
  from draw_icon_Inr [OF assms] have b: "0 \<le> s" "s \<le> INT_MAX div 4 - 1" by simp_all
  from assms have "img = projr (draw_icon s)" by simp
  then have "width img = s" "height img = s"
    by (simp_all add: draw_icon_nonneg [OF b])
  with b(1) show ?thesis by simp
qed

lemma draw_icon_2_31: "draw_icon 2147483648 = Inl OverflowError"
  by (simp add: draw_icon_def Image_new_RGB_def INT_MAX_def)

lemma draw_120: "draw_icon 120 = Inr icon_120"
  by (simp add: draw_icon_def Image_new_RGB_def INT_MAX_def ellipse_def polygon_def icon_120_def)

lemma create_icon_not_drawn:
  "draw_icon s = Inl e \<Longrightarrow> create_icon s p w = (Inl e, w)"
  by (simp add: create_icon_def)

lemma create_icon_drawn:
  assumes "0 < s" "draw_icon s = Inr img"
  shows "create_icon s p w =
           (if \<not> can_open w p then (Inl (OSError p), w)
            else print (progress_line p s) (w\<lparr>files := (files w)(p \<mapsto> PNG img)\<rparr>))"
proof -
  from draw_icon_dims [OF assms(2)] assms(1) have "0 < width img" "0 < height img" by simp_all
  then show ?thesis
    using assms(2) by (simp add: create_icon_def save_png_def progress_line_def)
qed

lemma create_icon_ok:
  assumes "0 < s" "s \<le> INT_MAX div 4 - 1" "can_open w p"
    "is_ascii (progress_line p s) \<or> can_encode w (progress_line p s)"
  shows "\<exists>img. draw_icon s = Inr img \<and>
           create_icon s p w =
             (Inr (), w\<lparr>files := (files w)(p \<mapsto> PNG img),
                        stdout := stdout w @ [progress_line p s]\<rparr>)"
proof -
  from assms(1) have "0 \<le> s" by simp
  from draw_icon_nonneg [OF this assms(2)] obtain img where d: "draw_icon s = Inr img" by blast
  from create_icon_drawn [OF assms(1) d, of p w] assms(3) assms(4) d show ?thesis
    by (auto simp: print_def)
qed

lemma create_icon_blocked:
  assumes "0 < s" "s \<le> INT_MAX div 4 - 1" "\<not> can_open w p"
  shows "create_icon s p w = (Inl (OSError p), w)"
proof -
  from assms(1) have "0 \<le> s" by simp
  from draw_icon_nonneg [OF this assms(2)] obtain img where d: "draw_icon s = Inr img" by blast
  from create_icon_drawn [OF assms(1) d, of p w] assms(3) show ?thesis by simp
qed

lemma create_icon_can_open:
  "can_open (snd (create_icon s p w)) = can_open w"
  by (simp add: create_icon_def save_png_def print_def split: sum.splits option.splits)

lemma create_icon_can_encode:
  "can_encode (snd (create_icon s p w)) = can_encode w"
  by (simp add: create_icon_def save_png_def print_def split: sum.splits option.splits)

lemma create_icon_success_can_open:
  "create_icon s p w = (Inr u, w') \<Longrightarrow> can_open w p"
  by (auto simp: create_icon_def save_png_def split: sum.splits if_splits prod.splits)

text \<open>
  C1 (as amended). For every size \<open>s > 0\<close> at which the library creates the image,
  \<^verbatim>\<open>create_icon\<close> builds an in-memory image of exactly \<open>s\<close> by \<open>s\<close> pixels in mode RGB,
  which has 3 colour channels; the drawing calls leave the dimensions alone, and the
  image written to the file is this very image, neither scaled nor cropped.
\<close>

theorem create_icon_raster_size:
  assumes "0 < s" "draw_icon s = Inr img"
  shows "mode img = ''RGB'' \<and> mode_bands (mode img) = Some 3
         \<and> width img = s \<and> height img = s
         \<and> (can_open w p \<longrightarrow> files (snd (create_icon s p w)) p = Some (PNG img))"
proof -
  from draw_icon_Inr [OF assms(2)] have b: "0 \<le> s" "s \<le> INT_MAX div 4 - 1" by simp_all
  from draw_icon_nonneg [OF b] assms(2) have md: "mode img = ''RGB''" by auto
  have dims: "width img = s \<and> height img = s"
    using draw_icon_dims [OF assms(2)] by simp
  have saved: "files (snd (create_icon s p w)) p = Some (PNG img)" if "can_open w p"
    using create_icon_drawn [OF assms, of p w] that by (simp add: print_def)
  show ?thesis
    using md dims saved by (simp add: mode_bands_RGB)
qed

theorem create_icon_raster_size_witness:
  "(0::int) < 120 \<and> draw_icon 120 = Inr icon_120 \<and> can_open fresh_world ''icon.png''
   \<and> mode icon_120 = ''RGB'' \<and> mode_bands (mode icon_120) = Some 3
   \<and> width icon_120 = 120 \<and> height icon_120 = 120
   \<and> files (snd (create_icon 120 ''icon.png'' fresh_world)) ''icon.png'' = Some (PNG icon_120)"
proof -
  have h: "(0::int) < 120" by simp
  have o: "can_open fresh_world ''icon.png''" by (simp add: fresh_world_def)
  show ?thesis
    using create_icon_raster_size [OF h draw_120, of fresh_world "''icon.png''"] h o draw_120
    by (simp add: mode_bands_RGB)
qed

text \<open>
  C1, as stated, fails at the size 2147483648 (2 to the power 31): the library raises \<^verbatim>\<open>OverflowError\<close> when the
  image is created, so there is no image of that size, and nothing is written or printed.
\<close>

theorem create_icon_raster_size_counterexample:
  "(0::int) < 2147483648
   \<and> draw_icon 2147483648 = Inl OverflowError
   \<and> create_icon 2147483648 ''icon.png'' fresh_world = (Inl OverflowError, fresh_world)"
  by (simp add: create_icon_def draw_icon_def Image_new_RGB_def INT_MAX_def)

text \<open>
  C3 (as amended). \<^verbatim>\<open>create_icon\<close> has no size check of its own. A negative size is
  rejected by the image constructor with a \<^verbatim>\<open>ValueError\<close>, before anything is drawn,
  written or printed. For a size \<open>s \<ge> 0\<close> the creation of the image is the only step of
  the rendering that can fail: when the library cannot create the image, its error is
  the error of \<^verbatim>\<open>create_icon\<close> and nothing is written or printed; when it creates the
  image, the three drawing calls succeed and the image has \<open>s\<close> by \<open>s\<close> pixels. Size 0 is
  rendered to an empty image, and \<^verbatim>\<open>create_icon\<close> then fails when it saves: with an
  \<^verbatim>\<open>OSError\<close> if the file cannot be opened, otherwise with a \<^verbatim>\<open>ValueError\<close>.
\<close>

theorem create_icon_size_handling:
  "(s < 0 \<longrightarrow> draw_icon s = Inl ValueError \<and> create_icon s p w = (Inl ValueError, w))
   \<and> (Image_new_RGB (s, s) ''#007AFF'' = Inl e \<longrightarrow>
        draw_icon s = Inl e \<and> create_icon s p w = (Inl e, w))
   \<and> (Image_new_RGB (s, s) ''#007AFF'' = Inr blank \<longrightarrow>
        0 \<le> s \<and> (\<exists>img. draw_icon s = Inr img \<and> width img = s \<and> height img = s))
   \<and> (s = 0 \<longrightarrow>
        fst (create_icon s p w) = Inl (if can_open w p then ValueError else OSError p))"
proof (intro conjI impI)
  assume neg: "s < 0"
  show "draw_icon s = Inl ValueError"
    by (rule draw_icon_neg [OF neg])
  then show "create_icon s p w = (Inl ValueError, w)"
    by (rule create_icon_not_drawn)
next
  assume new: "Image_new_RGB (s, s) ''#007AFF'' = Inl e"
  show "draw_icon s = Inl e"
    by (rule draw_icon_new_error [OF new])
  then show "create_icon s p w = (Inl e, w)"
    by (rule create_icon_not_drawn)
next
  assume new: "Image_new_RGB (s, s) ''#007AFF'' = Inr blank"
  then have b: "0 \<le> s \<and> s \<le> INT_MAX div 4 - 1"
    by (auto simp: Image_new_RGB_def INT_MAX_def split: if_splits)
  then show "0 \<le> s" by simp
  from b draw_icon_nonneg [of s] obtain img where d: "draw_icon s = Inr img" by blast
  with draw_icon_dims [OF d] show "\<exists>img. draw_icon s = Inr img \<and> width img = s \<and> height img = s"
    by blast
next
  assume z: "s = 0"
  show "fst (create_icon s p w) = Inl (if can_open w p then ValueError else OSError p)"
    unfolding z
    by (simp add: create_icon_def draw_icon_def Image_new_RGB_def INT_MAX_def ellipse_def
        polygon_def save_png_def)
qed

theorem create_icon_size_handling_witness:
  "(- 1 :: int) < 0
   \<and> draw_icon (- 1) = Inl ValueError
   \<and> create_icon (- 1) ''icon.png'' fresh_world = (Inl ValueError, fresh_world)
   \<and> Image_new_RGB (2147483648, 2147483648) ''#007AFF'' = Inl OverflowError
   \<and> draw_icon 2147483648 = Inl OverflowError
   \<and> create_icon 2147483648 ''icon.png'' fresh_world = (Inl OverflowError, fresh_world)
   \<and> Image_new_RGB (120, 120) ''#007AFF''
       = Inr \<lparr>mode = ''RGB'', width = 120, height = 120, background = ''#007AFF'', drawn = []\<rparr>
   \<and> (\<exists>img. draw_icon 120 = Inr img \<and> width img = 120 \<and> height img = 120)
   \<and> fst (create_icon 0 ''icon.png'' fresh_world) = Inl ValueError
   \<and> fst (create_icon 0 ''icon.png'' readonly_world) = Inl (OSError ''icon.png'')"
proof -
  have n: "(- 1 :: int) < 0" by simp
  have big: "Image_new_RGB (2147483648, 2147483648) ''#007AFF'' = Inl OverflowError"
    by (simp add: Image_new_RGB_def INT_MAX_def)
  have ok: "Image_new_RGB (120, 120) ''#007AFF''
       = Inr \<lparr>mode = ''RGB'', width = 120, height = 120, background = ''#007AFF'', drawn = []\<rparr>"
    by (simp add: Image_new_RGB_def INT_MAX_def)
  have o: "can_open fresh_world ''icon.png''" "\<not> can_open readonly_world ''icon.png''"
    by (simp_all add: fresh_world_def readonly_world_def)
  show ?thesis
    using create_icon_size_handling [where s = "- 1" and p = "''icon.png''" and w = fresh_world]
      create_icon_size_handling [where s = 2147483648 and e = OverflowError
        and p = "''icon.png''" and w = fresh_world]
      create_icon_size_handling [where s = 120 and blank =
        "\<lparr>mode = ''RGB'', width = 120, height = 120, background = ''#007AFF'', drawn = []\<rparr>"]
      create_icon_size_handling [where s = 0 and p = "''icon.png''" and w = fresh_world]
      create_icon_size_handling [where s = 0 and p = "''icon.png''" and w = readonly_world]
      n big ok o
    by simp
qed

text \<open>
  C3, as stated, fails in both halves. At size 0 the rendering raises no error: every
  step succeeds and gives an image of 0 by 0 pixels; \<^verbatim>\<open>create_icon\<close> fails only when
  it saves that image, with the \<^verbatim>\<open>ValueError\<close> of the encoder, or with an \<^verbatim>\<open>OSError\<close>
  when the file cannot be opened. At the size 2147483648 (2 to the power 31) the rendering
  fails with an \<^verbatim>\<open>OverflowError\<close>.
\<close>

theorem create_icon_size_zero_counterexample:
  "draw_icon 0 = Inr
     \<lparr>mode = ''RGB'', width = 0, height = 0, background = ''#007AFF'',
      drawn = [Ellipse (0, 0, 0, 0) ''white'',
               Polygon [(0, 0), (0, 0), (0, 0)] ''#007AFF'',
               Ellipse (0, 0, 0, 0) ''#007AFF'']\<rparr>
   \<and> create_icon 0 ''icon.png'' fresh_world = (Inl ValueError, fresh_world)
   \<and> create_icon 0 ''icon.png'' readonly_world = (Inl (OSError ''icon.png''), readonly_world)
   \<and> (0::int) < 2147483648
   \<and> draw_icon 2147483648 = Inl OverflowError"
  by (simp add: create_icon_def draw_icon_def Image_new_RGB_def INT_MAX_def ellipse_def
      polygon_def save_png_def fresh_world_def readonly_world_def)

text \<open>
  C4 (as amended). The drawing part of \<^verbatim>\<open>create_icon\<close> is a computation on the
  in-memory image alone, but \<^verbatim>\<open>create_icon\<close> itself saves and prints. When the image
  cannot be created, the error is raised and the environment is left as it was. When
  the image of a size \<open>s > 0\<close> is created: if the path cannot be written, an \<^verbatim>\<open>OSError\<close>
  is raised and the environment is left as it was; otherwise the image is stored under
  that path and no other file changes, and then the progress line is printed, one more
  text on the output, unless the output stream cannot encode it, in which case a
  \<^verbatim>\<open>UnicodeEncodeError\<close> is raised with the file already written.
\<close>

theorem create_icon_effects:
  "(draw_icon s = Inl e \<longrightarrow> create_icon s p w = (Inl e, w))
   \<and> (0 < s \<and> draw_icon s = Inr img \<and> \<not> can_open w p \<longrightarrow>
        create_icon s p w = (Inl (OSError p), w))
   \<and> (0 < s \<and> draw_icon s = Inr img \<and> can_open w p
        \<and> (is_ascii (progress_line p s) \<or> can_encode w (progress_line p s)) \<longrightarrow>
        create_icon s p w =
          (Inr (), w\<lparr>files := (files w)(p \<mapsto> PNG img),
                     stdout := stdout w @ [progress_line p s]\<rparr>))
   \<and> (0 < s \<and> draw_icon s = Inr img \<and> can_open w p
        \<and> \<not> (is_ascii (progress_line p s) \<or> can_encode w (progress_line p s)) \<longrightarrow>
        create_icon s p w =
          (Inl UnicodeEncodeError, w\<lparr>files := (files w)(p \<mapsto> PNG img)\<rparr>))"
proof (intro conjI impI)
  assume "draw_icon s = Inl e"
  then show "create_icon s p w = (Inl e, w)" by (rule create_icon_not_drawn)
next
  assume a: "0 < s \<and> draw_icon s = Inr img \<and> \<not> can_open w p"
  then have "0 < s" "draw_icon s = Inr img" by simp_all
  from create_icon_drawn [OF this, of p w] a show "create_icon s p w = (Inl (OSError p), w)"
    by simp
next
  assume a: "0 < s \<and> draw_icon s = Inr img \<and> can_open w p
        \<and> (is_ascii (progress_line p s) \<or> can_encode w (progress_line p s))"
  then have "0 < s" "draw_icon s = Inr img" by simp_all
  from create_icon_drawn [OF this, of p w] a
  show "create_icon s p w =
          (Inr (), w\<lparr>files := (files w)(p \<mapsto> PNG img),
                     stdout := stdout w @ [progress_line p s]\<rparr>)"
    by (auto simp: print_def)
next
  assume a: "0 < s \<and> draw_icon s = Inr img \<and> can_open w p
        \<and> \<not> (is_ascii (progress_line p s) \<or> can_encode w (progress_line p s))"
  then have "0 < s" "draw_icon s = Inr img" by simp_all
  from create_icon_drawn [OF this, of p w] a
  show "create_icon s p w =
          (Inl UnicodeEncodeError, w\<lparr>files := (files w)(p \<mapsto> PNG img)\<rparr>)"
    by (auto simp: print_def)
qed

lemma progress_line_icon_ascii: "is_ascii (progress_line ''icon.png'' 120)"
  by code_simp

lemma progress_line_accented: "\<not> is_ascii (progress_line accented_png 120)"
  by code_simp

theorem create_icon_effects_witness:
  "draw_icon 2147483648 = Inl OverflowError
   \<and> create_icon 2147483648 ''icon.png'' fresh_world = (Inl OverflowError, fresh_world)
   \<and> (0::int) < 120 \<and> draw_icon 120 = Inr icon_120
   \<and> \<not> can_open readonly_world ''icon.png''
   \<and> create_icon 120 ''icon.png'' readonly_world = (Inl (OSError ''icon.png''), readonly_world)
   \<and> can_open fresh_world ''icon.png''
   \<and> (is_ascii (progress_line ''icon.png'' 120)
        \<or> can_encode fresh_world (progress_line ''icon.png'' 120))
   \<and> create_icon 120 ''icon.png'' fresh_world =
       (Inr (), fresh_world\<lparr>files := (files fresh_world)(''icon.png'' \<mapsto> PNG icon_120),
                   stdout := stdout fresh_world @ [progress_line ''icon.png'' 120]\<rparr>)
   \<and> can_open ascii_world accented_png
   \<and> \<not> (is_ascii (progress_line accented_png 120)
          \<or> can_encode ascii_world (progress_line accented_png 120))
   \<and> create_icon 120 accented_png ascii_world =
       (Inl UnicodeEncodeError,
        ascii_world\<lparr>files := (files ascii_world)(accented_png \<mapsto> PNG icon_120)\<rparr>)"
proof -
  have h: "(0::int) < 120" by simp
  have o: "can_open fresh_world ''icon.png''" "\<not> can_open readonly_world ''icon.png''"
    "can_open ascii_world accented_png"
    by (simp_all add: fresh_world_def readonly_world_def ascii_world_def)
  have enc: "\<not> can_encode ascii_world (progress_line accented_png 120)"
    by (simp add: ascii_world_def)
  show ?thesis
    using create_icon_effects [where s = 2147483648 and e = OverflowError
        and p = "''icon.png''" and w = fresh_world]
      create_icon_effects [where s = 120 and p = "''icon.png''" and w = readonly_world
        and img = icon_120]
      create_icon_effects [where s = 120 and p = "''icon.png''" and w = fresh_world
        and img = icon_120]
      create_icon_effects [where s = 120 and p = accented_png and w = ascii_world
        and img = icon_120]
      h o enc draw_120 draw_icon_2_31 progress_line_icon_ascii progress_line_accented
    by simp
qed

text \<open>
  C4, as stated, fails: called with size 120 in an environment without files and without
  output, \<^verbatim>\<open>create_icon\<close> leaves a file and a printed line behind.
\<close>

theorem create_icon_pure_counterexample:
  "files fresh_world ''icon.png'' = None
   \<and> stdout fresh_world = []
   \<and> fst (create_icon 120 ''icon.png'' fresh_world) = Inr ()
   \<and> files (snd (create_icon 120 ''icon.png'' fresh_world)) ''icon.png'' \<noteq> None
   \<and> stdout (snd (create_icon 120 ''icon.png'' fresh_world)) = [''Created icon.png (120x120)'']"
proof -
  have a: "is_ascii ''Created icon.png (120x120)''" by code_simp
  have l: "str 120 = ''120''"
    by code_simp
  show ?thesis
    using a
    by (simp add: fresh_world_def create_icon_def draw_120 icon_120_def save_png_def
        print_def l)
qed

section \<open>The geometry of the glyph\<close>

lemma draw_icon_shapes:
  assumes "draw_icon s = Inr img"
  shows "img =
     \<lparr>mode = ''RGB'', width = s, height = s, background = ''#007AFF'',
      drawn =
        [Ellipse (s div 8, s div 8, s - s div 8, s - s div 8) ''white'',
         Polygon [(s div 2, s div 2 + s div 4 div 4 - s div 4 div 2),
                  (s div 2 - s div 4 div 3, s div 2 + s div 4 div 4 + s div 4 div 4),
                  (s div 2 + s div 4 div 3, s div 2 + s div 4 div 4 + s div 4 div 4)] ''#007AFF'',
         Ellipse (s div 2 - s div 4 div 3 div 2,
                  s div 2 + s div 4 div 4 + s div 4 div 4 - s div 4 div 3 div 2,
                  s div 2 + s div 4 div 3 div 2,
                  s div 2 + s div 4 div 4 + s div 4 div 4 + s div 4 div 3 div 2) ''#007AFF'']\<rparr>"
proof -
  from draw_icon_Inr [OF assms] have "0 \<le> s" "s \<le> INT_MAX div 4 - 1" by simp_all
  from draw_icon_nonneg [OF this] assms show ?thesis by simp
qed



text \<open>
  C7 (as amended). For every size \<open>s > 0\<close> at which the image is created, with
  \<open>pinSize = s div 4\<close>, \<open>centerX = s div 2\<close> and \<open>centerY = s div 2 + pinSize div 4\<close>:
  after the white circle the triangle with the vertices
  \<open>(centerX, centerY - pinSize div 2)\<close>, \<open>(centerX - pinSize div 3, centerY + pinSize div 4)\<close>
  and \<open>(centerX + pinSize div 3, centerY + pinSize div 4)\<close> is drawn, then the pin base,
  both in the colour of the background. The bounding box of the pin base is centred at
  \<open>(centerX, centerY + pinSize div 4)\<close> and reaches \<open>(pinSize div 3) div 2\<close> to each side:
  its diameter is \<open>2 * ((pinSize div 3) div 2)\<close>, which is \<open>pinSize div 3\<close> when that
  number is even and one less when it is odd.
\<close>

theorem pin_glyph_geometry:
  assumes "0 < s" "draw_icon s = Inr img"
  shows "\<exists>circle x0 y0 x1 y1 pinSize centerX centerY.
           pinSize = s div 4 \<and> centerX = s div 2 \<and> centerY = s div 2 + pinSize div 4
           \<and> background img = ''#007AFF''
           \<and> drawn img =
               [circle,
                Polygon [(centerX, centerY - pinSize div 2),
                         (centerX - pinSize div 3, centerY + pinSize div 4),
                         (centerX + pinSize div 3, centerY + pinSize div 4)] ''#007AFF'',
                Ellipse (x0, y0, x1, y1) ''#007AFF'']
           \<and> x0 + x1 = 2 * centerX \<and> y0 + y1 = 2 * (centerY + pinSize div 4)
           \<and> centerX - x0 = pinSize div 3 div 2 \<and> x1 - centerX = pinSize div 3 div 2
           \<and> x1 - x0 = 2 * (pinSize div 3 div 2) \<and> y1 - y0 = 2 * (pinSize div 3 div 2)
           \<and> x1 - x0 = pinSize div 3 - pinSize div 3 mod 2"
proof -
  define pinSize where "pinSize = s div 4"
  define centerX where "centerX = s div 2"
  define centerY where "centerY = s div 2 + pinSize div 4"
  define r where "r = pinSize div 3 div 2"
  have par: "2 * r = pinSize div 3 - pinSize div 3 mod 2"
    unfolding r_def by (simp add: minus_mod_eq_mult_div [symmetric])
  have a1: "(centerX - r) + (centerX + r) = 2 * centerX" by simp
  have a2: "(centerY + pinSize div 4 - r) + (centerY + pinSize div 4 + r)
              = 2 * (centerY + pinSize div 4)" by simp
  have a3: "centerX - (centerX - r) = pinSize div 3 div 2" by (simp add: r_def)
  have a4: "(centerX + r) - centerX = pinSize div 3 div 2" by (simp add: r_def)
  have a5: "(centerX + r) - (centerX - r) = 2 * (pinSize div 3 div 2)" by (simp add: r_def)
  have a6: "(centerY + pinSize div 4 + r) - (centerY + pinSize div 4 - r)
              = 2 * (pinSize div 3 div 2)" by (simp add: r_def)
  have a7: "(centerX + r) - (centerX - r) = pinSize div 3 - pinSize div 3 mod 2"
    using par by simp
  have bg: "background img = ''#007AFF''"
    by (simp add: draw_icon_shapes [OF assms(2)])
  have dr: "drawn img =
               [Ellipse (s div 8, s div 8, s - s div 8, s - s div 8) ''white'',
                Polygon [(centerX, centerY - pinSize div 2),
                         (centerX - pinSize div 3, centerY + pinSize div 4),
                         (centerX + pinSize div 3, centerY + pinSize div 4)] ''#007AFF'',
                Ellipse (centerX - r, centerY + pinSize div 4 - r,
                         centerX + r, centerY + pinSize div 4 + r) ''#007AFF'']"
    unfolding r_def centerY_def centerX_def pinSize_def
    by (simp add: draw_icon_shapes [OF assms(2)])
  show ?thesis
    using pinSize_def centerX_def centerY_def bg dr a1 a2 a3 a4 a5 a6 a7
    by (intro exI conjI)
qed

lemma draw_1024:
  "draw_icon 1024 = Inr
     \<lparr>mode = ''RGB'', width = 1024, height = 1024, background = ''#007AFF'',
      drawn = [Ellipse (128, 128, 896, 896) ''white'',
               Polygon [(512, 448), (427, 640), (597, 640)] ''#007AFF'',
               Ellipse (470, 598, 554, 682) ''#007AFF'']\<rparr>"
  by (simp add: draw_icon_def Image_new_RGB_def INT_MAX_def ellipse_def polygon_def)

theorem pin_glyph_geometry_witness:
  "(0::int) < 1024
   \<and> draw_icon 1024 = Inr
       \<lparr>mode = ''RGB'', width = 1024, height = 1024, background = ''#007AFF'',
        drawn = [Ellipse (128, 128, 896, 896) ''white'',
                 Polygon [(512, 448), (427, 640), (597, 640)] ''#007AFF'',
                 Ellipse (470, 598, 554, 682) ''#007AFF'']\<rparr>
   \<and> (\<exists>circle x0 y0 x1 y1 pinSize centerX centerY.
         pinSize = 1024 div 4 \<and> centerX = 1024 div 2 \<and> centerY = 1024 div 2 + pinSize div 4
         \<and> [Ellipse (128, 128, 896, 896) ''white'',
             Polygon [(512, 448), (427, 640), (597, 640)] ''#007AFF'',
             Ellipse (470, 598, 554, 682) ''#007AFF''] =
             [circle,
              Polygon [(centerX, centerY - pinSize div 2),
                       (centerX - pinSize div 3, centerY + pinSize div 4),
                       (centerX + pinSize div 3, centerY + pinSize div 4)] ''#007AFF'',
              Ellipse (x0, y0, x1, y1) ''#007AFF'']
         \<and> x0 + x1 = 2 * centerX \<and> y0 + y1 = 2 * (centerY + pinSize div 4)
         \<and> centerX - x0 = pinSize div 3 div 2 \<and> x1 - centerX = pinSize div 3 div 2
         \<and> x1 - x0 = 2 * (pinSize div 3 div 2) \<and> y1 - y0 = 2 * (pinSize div 3 div 2)
         \<and> x1 - x0 = pinSize div 3 - pinSize div 3 mod 2)"
proof -
  have h: "(0::int) < 1024" by simp
  from pin_glyph_geometry [OF h draw_1024]
  obtain circle x0 y0 x1 y1 pinSize centerX centerY where
    g: "pinSize = 1024 div 4 \<and> centerX = 1024 div 2 \<and> centerY = 1024 div 2 + pinSize div 4
         \<and> [Ellipse (128, 128, 896, 896) ''white'',
             Polygon [(512, 448), (427, 640), (597, 640)] ''#007AFF'',
             Ellipse (470, 598, 554, 682) ''#007AFF''] =
             [circle,
              Polygon [(centerX, centerY - pinSize div 2),
                       (centerX - pinSize div 3, centerY + pinSize div 4),
                       (centerX + pinSize div 3, centerY + pinSize div 4)] ''#007AFF'',
              Ellipse (x0, y0, x1, y1) ''#007AFF'']
         \<and> x0 + x1 = 2 * centerX \<and> y0 + y1 = 2 * (centerY + pinSize div 4)
         \<and> centerX - x0 = pinSize div 3 div 2 \<and> x1 - centerX = pinSize div 3 div 2
         \<and> x1 - x0 = 2 * (pinSize div 3 div 2) \<and> y1 - y0 = 2 * (pinSize div 3 div 2)
         \<and> x1 - x0 = pinSize div 3 - pinSize div 3 mod 2"
    unfolding image.simps by blast
  then have "\<exists>circle x0 y0 x1 y1 pinSize centerX centerY.
         pinSize = 1024 div 4 \<and> centerX = 1024 div 2 \<and> centerY = 1024 div 2 + pinSize div 4
         \<and> [Ellipse (128, 128, 896, 896) ''white'',
             Polygon [(512, 448), (427, 640), (597, 640)] ''#007AFF'',
             Ellipse (470, 598, 554, 682) ''#007AFF''] =
             [circle,
              Polygon [(centerX, centerY - pinSize div 2),
                       (centerX - pinSize div 3, centerY + pinSize div 4),
                       (centerX + pinSize div 3, centerY + pinSize div 4)] ''#007AFF'',
              Ellipse (x0, y0, x1, y1) ''#007AFF'']
         \<and> x0 + x1 = 2 * centerX \<and> y0 + y1 = 2 * (centerY + pinSize div 4)
         \<and> centerX - x0 = pinSize div 3 div 2 \<and> x1 - centerX = pinSize div 3 div 2
         \<and> x1 - x0 = 2 * (pinSize div 3 div 2) \<and> y1 - y0 = 2 * (pinSize div 3 div 2)
         \<and> x1 - x0 = pinSize div 3 - pinSize div 3 mod 2"
    by (intro exI)
  with h draw_1024 show ?thesis by (intro conjI)
qed

text \<open>
  C7, as stated, fails at size 1024, a size of the table: \<open>pinSize div 3\<close> is 85 there, and
  the pin base is drawn in the bounding box from 470 to 554 and from 598 to 682, a
  diameter of 84. Counting the pixels from the first to the last one of the box instead
  does not save the claim: at size 152, \<open>pinSize div 3\<close> is 12 and the box, from 70 to 82,
  then counts 13.
\<close>

theorem pin_base_diameter_counterexample:
  "draw_icon 1024 = Inr
     \<lparr>mode = ''RGB'', width = 1024, height = 1024, background = ''#007AFF'',
      drawn = [Ellipse (128, 128, 896, 896) ''white'',
               Polygon [(512, 448), (427, 640), (597, 640)] ''#007AFF'',
               Ellipse (470, 598, 554, 682) ''#007AFF'']\<rparr>
   \<and> (554::int) - 470 \<noteq> 1024 div 4 div 3
   \<and> (682::int) - 598 \<noteq> 1024 div 4 div 3
   \<and> draw_icon 152 = Inr
       \<lparr>mode = ''RGB'', width = 152, height = 152, background = ''#007AFF'',
        drawn = [Ellipse (19, 19, 133, 133) ''white'',
                 Polygon [(76, 66), (64, 94), (88, 94)] ''#007AFF'',
                 Ellipse (70, 88, 82, 100) ''#007AFF'']\<rparr>
   \<and> (82::int) - 70 + 1 \<noteq> 152 div 4 div 3"
  by (simp add: draw_icon_def Image_new_RGB_def INT_MAX_def ellipse_def polygon_def)

text \<open>
  C8. Rendering at size 120 gives an image of 120 by 120 pixels in which the bounding box
  of the white circle spans 15 to 105 on each axis and the apex of the pin triangle, in
  the accent colour, is at (60, 52): in the column of (60, 45) and \<open>pinSize div 4 = 7\<close>
  rows below it, the downward offset of the glyph.
\<close>

theorem draw_icon_120:
  "draw_icon 120 = Inr
     \<lparr>mode = ''RGB'', width = 120, height = 120, background = ''#007AFF'',
      drawn = [Ellipse (15, 15, 105, 105) ''white'',
               Polygon [(60, 52), (50, 74), (70, 74)] ''#007AFF'',
               Ellipse (55, 69, 65, 79) ''#007AFF'']\<rparr>
   \<and> (60::int) - 60 = 0
   \<and> (52::int) - 45 = 120 div 4 div 4
   \<and> \<bar>(52::int) - 45\<bar> \<le> 120 div 4 div 4"
  by (simp add: draw_icon_def Image_new_RGB_def INT_MAX_def ellipse_def polygon_def)

section \<open>The batch\<close>

subsection \<open>The loop over a table\<close>

lemma plain_entryD:
  assumes "plain_entry e"
  shows "0 < fst e" "fst e \<le> INT_MAX div 4 - 1"
    "is_ascii (progress_line (table_path e) (fst e))"
  using assms by (simp_all add: plain_entry_def created_line_def progress_line_def)

lemma create_each_Cons_ok:
  assumes "plain_entry e" "can_open w (table_path e)"
  shows "\<exists>img. draw_icon (fst e) = Inr img \<and>
           create_each (e # es) w =
             create_each es (w\<lparr>files := (files w)(table_path e \<mapsto> PNG img),
                               stdout := stdout w @ [created_line e]\<rparr>)"
proof -
  obtain s n where e: "e = (s, n)" by (cases e)
  from plain_entryD [OF assms(1)]
  have p: "0 < fst e" "fst e \<le> INT_MAX div 4 - 1"
    and a: "is_ascii (progress_line (table_path e) (fst e))
            \<or> can_encode w (progress_line (table_path e) (fst e))" by simp_all
  from create_icon_ok [OF p assms(2) a] obtain img where
    d: "draw_icon (fst e) = Inr img" and
    c: "create_icon (fst e) (table_path e) w =
          (Inr (), w\<lparr>files := (files w)(table_path e \<mapsto> PNG img),
                     stdout := stdout w @ [progress_line (table_path e) (fst e)]\<rparr>)"
    by blast
  show ?thesis
    using d c by (simp add: e table_path_def created_line_def progress_line_def)
qed

lemma create_each_Cons_blocked:
  assumes "plain_entry e" "\<not> can_open w (table_path e)"
  shows "create_each (e # es) w = (Inl (OSError (table_path e)), w)"
proof -
  obtain s n where e: "e = (s, n)" by (cases e)
  from create_icon_blocked [OF plain_entryD(1,2) [OF assms(1)] assms(2)] show ?thesis
    by (simp add: e table_path_def)
qed

lemma create_each_append:
  "create_each (xs @ ys) w =
     (case create_each xs w of (Inl e, w') \<Rightarrow> (Inl e, w') | (Inr u, w') \<Rightarrow> create_each ys w')"
  by (induction xs w rule: create_each.induct) (auto split: prod.splits sum.splits)

lemma create_each_can_open:
  "can_open (snd (create_each es w)) = can_open w"
proof (induction es w rule: create_each.induct)
  case (1 w)
  show ?case by simp
next
  case (2 sz filename rest w)
  have co: "can_open (snd (create_icon sz (os_path_join icon_dir filename) w)) = can_open w"
    by (rule create_icon_can_open)
  show ?case
  proof (cases "create_icon sz (os_path_join icon_dir filename) w")
    case (Pair r w1)
    with co have w1: "can_open w1 = can_open w" by simp
    show ?thesis
    proof (cases r)
      case (Inl err)
      with Pair w1 show ?thesis by simp
    next
      case (Inr u)
      with Pair w1 "2.IH" [OF refl Pair [symmetric] Inr] show ?thesis by simp
    qed
  qed
qed

lemma create_each_all_ok:
  assumes "list_all plain_entry es" "list_all (\<lambda>e. can_open w (table_path e)) es"
  shows "\<exists>w'. create_each es w = (Inr (), w') \<and> stdout w' = stdout w @ map created_line es
               \<and> can_open w' = can_open w"
  using assms
proof (induction es arbitrary: w)
  case Nil
  show ?case by simp
next
  case (Cons e es)
  from Cons.prems have pos: "plain_entry e" and op: "can_open w (table_path e)"
    and pos': "list_all plain_entry es"
    and op': "list_all (\<lambda>e. can_open w (table_path e)) es"
    by simp_all
  from create_each_Cons_ok [OF pos op, of es] obtain img where
    step: "create_each (e # es) w =
             create_each es (w\<lparr>files := (files w)(table_path e \<mapsto> PNG img),
                               stdout := stdout w @ [created_line e]\<rparr>)"
    by blast
  let ?w1 = "w\<lparr>files := (files w)(table_path e \<mapsto> PNG img),
                stdout := stdout w @ [created_line e]\<rparr>"
  from op' have "list_all (\<lambda>e. can_open ?w1 (table_path e)) es" by simp
  from Cons.IH [OF pos' this] step show ?case by auto
qed

lemma create_each_success_can_open:
  "create_each es w = (Inr u, w') \<Longrightarrow> list_all (\<lambda>e. can_open w (table_path e)) es"
proof (induction es arbitrary: w)
  case Nil
  show ?case by simp
next
  case (Cons e es)
  obtain s n where e: "e = (s, n)" by (cases e)
  obtain r w1 where c: "create_icon s (os_path_join icon_dir n) w = (r, w1)"
    by (cases "create_icon s (os_path_join icon_dir n) w")
  from Cons.prems c e obtain u1 where r: "r = Inr u1" and rest: "create_each es w1 = (Inr u, w')"
    by (cases r) (auto)
  from create_icon_success_can_open c r have here: "can_open w (table_path e)"
    by (simp add: e table_path_def)
  from create_icon_can_open [of s "os_path_join icon_dir n" w] c have "can_open w1 = can_open w"
    by simp
  with Cons.IH [OF rest] here show ?case by simp
qed

lemma create_icon_untouched:
  "p \<noteq> q \<Longrightarrow> files (snd (create_icon s q w)) p = files w p"
  by (simp add: create_icon_def save_png_def print_def split: sum.splits option.splits)

lemma create_each_can_encode:
  "can_encode (snd (create_each es w)) = can_encode w"
proof (induction es arbitrary: w)
  case Nil
  show ?case by simp
next
  case (Cons e es)
  obtain s n where e: "e = (s, n)" by (cases e)
  obtain r w1 where c: "create_icon s (os_path_join icon_dir n) w = (r, w1)"
    by (cases "create_icon s (os_path_join icon_dir n) w")
  from create_icon_can_encode [of s "os_path_join icon_dir n" w] c
  have w1: "can_encode w1 = can_encode w" by simp
  show ?case
  proof (cases r)
    case (Inl err)
    with c w1 show ?thesis by (simp add: e)
  next
    case (Inr u1)
    with c w1 Cons.IH [of w1] show ?thesis by (simp add: e)
  qed
qed

lemma create_each_untouched:
  "p \<notin> table_path ` set es \<Longrightarrow> files (snd (create_each es w)) p = files w p"
proof (induction es arbitrary: w)
  case Nil
  show ?case by simp
next
  case (Cons e es)
  obtain s n where e: "e = (s, n)" by (cases e)
  from Cons.prems have ne: "p \<noteq> os_path_join icon_dir n" and nin: "p \<notin> table_path ` set es"
    by (auto simp: e table_path_def)
  obtain r w1 where c: "create_icon s (os_path_join icon_dir n) w = (r, w1)"
    by (cases "create_icon s (os_path_join icon_dir n) w")
  from create_icon_untouched [OF ne, of s w] c have w1: "files w1 p = files w p" by simp
  show ?case
  proof (cases r)
    case (Inl err)
    with c w1 show ?thesis by (simp add: e)
  next
    case (Inr u1)
    with c w1 Cons.IH [OF nin, of w1] show ?thesis by (simp add: e)
  qed
qed

lemma create_each_files:
  assumes "list_all plain_entry es" "create_each es w = (Inr u, w')" "e \<in> set es"
    "\<forall>e'\<in>set es. table_path e' = table_path e \<longrightarrow> fst e' = fst e"
  shows "\<exists>img. draw_icon (fst e) = Inr img \<and> files w' (table_path e) = Some (PNG img)"
  using assms
proof (induction es arbitrary: w e)
  case Nil
  then show ?case by simp
next
  case (Cons x es)
  from Cons.prems(1) have posx: "plain_entry x" and pos': "list_all plain_entry es"
    by simp_all
  from create_each_success_can_open [OF Cons.prems(2)] have op: "can_open w (table_path x)"
    by simp
  from create_each_Cons_ok [OF posx op, of es] obtain img where
    dx: "draw_icon (fst x) = Inr img" and
    step: "create_each (x # es) w =
             create_each es (w\<lparr>files := (files w)(table_path x \<mapsto> PNG img),
                               stdout := stdout w @ [created_line x]\<rparr>)"
    by blast
  let ?w1 = "w\<lparr>files := (files w)(table_path x \<mapsto> PNG img),
                stdout := stdout w @ [created_line x]\<rparr>"
  from step Cons.prems(2) have rest: "create_each es ?w1 = (Inr u, w')" by simp
  from Cons.prems(4) have fn: "\<forall>e'\<in>set es. table_path e' = table_path e \<longrightarrow> fst e' = fst e"
    by simp
  show ?case
  proof (cases "\<exists>e'\<in>set es. table_path e' = table_path e")
    case True
    then obtain e' where e': "e' \<in> set es" and pe: "table_path e' = table_path e" by blast
    from fn e' pe have se: "fst e' = fst e" by blast
    have "\<forall>e''\<in>set es. table_path e'' = table_path e' \<longrightarrow> fst e'' = fst e'"
      using fn pe se by simp
    from Cons.IH [OF pos' rest e' this] pe se show ?thesis by simp
  next
    case False
    then have nin: "table_path e \<notin> table_path ` set es" by auto
    from False Cons.prems(3) have ex: "e = x" by auto
    from create_each_untouched [OF nin, of ?w1] rest
    have "files w' (table_path e) = files ?w1 (table_path e)" by simp
    with ex dx show ?thesis by simp
  qed
qed

lemma create_each_dom:
  assumes "list_all plain_entry es" "create_each es w = (Inr u, w')"
  shows "dom (files w') = dom (files w) \<union> table_path ` set es"
  using assms
proof (induction es arbitrary: w)
  case Nil
  then show ?case by simp
next
  case (Cons x es)
  from Cons.prems(1) have posx: "plain_entry x" and pos': "list_all plain_entry es"
    by simp_all
  from create_each_success_can_open [OF Cons.prems(2)] have op: "can_open w (table_path x)"
    by simp
  from create_each_Cons_ok [OF posx op, of es] obtain img where
    step: "create_each (x # es) w =
             create_each es (w\<lparr>files := (files w)(table_path x \<mapsto> PNG img),
                               stdout := stdout w @ [created_line x]\<rparr>)"
    by blast
  let ?w1 = "w\<lparr>files := (files w)(table_path x \<mapsto> PNG img),
                stdout := stdout w @ [created_line x]\<rparr>"
  from step Cons.prems(2) have rest: "create_each es ?w1 = (Inr u, w')" by simp
  from Cons.IH [OF pos' rest] show ?case by auto
qed

subsection \<open>The table of the script\<close>

lemma icons_plain: "list_all plain_entry icons"
  by code_simp

lemma table_path_plain:
  "n = [] \<or> hd n \<noteq> CHR ''/'' \<Longrightarrow> table_path (s, n) = icon_dir @ ''/'' @ n"
  by (auto simp: table_path_def os_path_join_def icon_dir_def)

lemma icons_names: "list_all (\<lambda>e. hd (snd e) = CHR ''I'') icons"
  by code_simp

lemma icons_table_path:
  assumes "e \<in> set icons"
  shows "table_path e = icon_dir @ ''/'' @ snd e"
proof -
  from icons_names assms have "hd (snd e) = CHR ''I''"
    by (simp add: list_all_iff)
  then have "hd (snd e) \<noteq> CHR ''/''" by simp
  with table_path_plain [of "snd e" "fst e"] show ?thesis by simp
qed

lemma icons_functional_list:
  "list_all (\<lambda>e. list_all (\<lambda>e'. snd e' = snd e \<longrightarrow> fst e' = fst e) icons) icons"
  by code_simp

lemma icons_path_functional:
  assumes "e \<in> set icons"
  shows "\<forall>e'\<in>set icons. table_path e' = table_path e \<longrightarrow> fst e' = fst e"
proof (intro ballI impI)
  fix e' assume e': "e' \<in> set icons" and p: "table_path e' = table_path e"
  have "icon_dir @ ''/'' @ snd e' = icon_dir @ ''/'' @ snd e"
    using p by (simp only: icons_table_path [OF assms] icons_table_path [OF e'])
  then have n: "snd e' = snd e"
    by (simp only: same_append_eq)
  have "\<forall>a\<in>set icons. \<forall>b\<in>set icons. snd b = snd a \<longrightarrow> fst b = fst a"
    using icons_functional_list unfolding list_all_iff .
  with assms e' n show "fst e' = fst e" by blast
qed

lemma icons_spec_table_list:
  "list_all (\<lambda>e. e \<in> set spec_table) icons \<and> list_all (\<lambda>e. e \<in> set icons) spec_table"
  by code_simp

lemma icons_spec_table: "set icons = set spec_table"
  using icons_spec_table_list by (auto simp: list_all_iff)

lemma icons_names_count: "length (remdups (map snd icons)) = 14"
  by code_simp

lemma icons_names_card: "card (snd ` set icons) = 14"
  using icons_names_count by (simp add: card_set flip: set_map)

lemma icons_paths_card: "card (table_path ` set icons) = 14"
proof -
  have "table_path ` set icons = (\<lambda>n. icon_dir @ ''/'' @ n) ` (snd ` set icons)"
    using icons_table_path by (auto simp: image_iff)
  moreover have "inj_on (\<lambda>n. icon_dir @ ''/'' @ n) (snd ` set icons)"
    by (simp add: inj_on_def)
  ultimately show ?thesis
    using icons_names_card by (simp add: card_image)
qed

subsection \<open>A successful run\<close>

lemma main_success_iff:
  "main w = (Inr (), w') \<longleftrightarrow>
     (\<exists>w1. create_each icons w = (Inr (), w1)
        \<and> can_encode w1 msg_all_generated \<and> can_encode w1 msg_critical
        \<and> w' = w1\<lparr>stdout := stdout w1 @ [msg_all_generated, msg_critical]\<rparr>)"
proof -
  have a: "\<not> is_ascii msg_all_generated" "\<not> is_ascii msg_critical"
    by code_simp+
  show ?thesis
    using a by (auto simp: main_def print_def split: prod.splits sum.splits if_splits)
qed

lemma main_ok:
  assumes "list_all (\<lambda>e. can_open w (table_path e)) icons"
    "can_encode w msg_all_generated" "can_encode w msg_critical"
  shows "\<exists>w'. main w = (Inr (), w')"
proof -
  from create_each_all_ok [OF icons_plain assms(1)] obtain w1
    where c: "create_each icons w = (Inr (), w1)" by blast
  from create_each_can_encode [of icons w] c have "can_encode w1 = can_encode w" by simp
  with c assms(2,3) show ?thesis by (simp add: main_success_iff)
qed

lemma main_files:
  assumes "main w = (Inr (), w')"
  shows "\<exists>w1. create_each icons w = (Inr (), w1) \<and> files w' = files w1
           \<and> can_open w' = can_open w
           \<and> stdout w' = stdout w1 @ [msg_all_generated, msg_critical]"
proof -
  from assms obtain w1 where c: "create_each icons w = (Inr (), w1)"
    and w': "w' = w1\<lparr>stdout := stdout w1 @ [msg_all_generated, msg_critical]\<rparr>"
    by (auto simp: main_success_iff)
  from create_each_can_open [of icons w] c have "can_open w1 = can_open w" by simp
  with c w' show ?thesis by simp
qed

lemma main_encodes:
  assumes "main w = (Inr (), w')"
  shows "can_encode w msg_all_generated \<and> can_encode w msg_critical
         \<and> can_encode w' = can_encode w"
proof -
  from assms obtain w1 where c: "create_each icons w = (Inr (), w1)"
    and e: "can_encode w1 msg_all_generated" "can_encode w1 msg_critical"
    and w': "w' = w1\<lparr>stdout := stdout w1 @ [msg_all_generated, msg_critical]\<rparr>"
    by (auto simp: main_success_iff)
  from create_each_can_encode [of icons w] c have "can_encode w1 = can_encode w" by simp
  with e w' show ?thesis by simp
qed

lemma main_fresh: "\<exists>w'. main fresh_world = (Inr (), w')"
proof (rule main_ok)
  show "list_all (\<lambda>e. can_open fresh_world (table_path e)) icons"
    by (simp add: fresh_world_def list_all_iff)
qed (simp_all add: fresh_world_def)

lemma main_file_of_entry:
  assumes "main w = (Inr (), w')" "e \<in> set icons"
  shows "\<exists>img. draw_icon (fst e) = Inr img \<and> files w' (table_path e) = Some (PNG img)"
proof -
  from main_files [OF assms(1)] obtain w1 where c: "create_each icons w = (Inr (), w1)"
    and f: "files w' = files w1" by blast
  from create_each_files [OF icons_plain c assms(2) icons_path_functional [OF assms(2)]] f
  show ?thesis by simp
qed

lemma spec_table_shape: "length spec_table = 14 \<and> distinct (map snd spec_table)"
  by code_simp

lemma fresh_world_open: "list_all (\<lambda>e. can_open fresh_world (table_path e)) icons"
  by (simp add: fresh_world_def list_all_iff)

lemma icons_has_critical: "(120, ''Icon-App-60x60@2x.png'') \<in> set icons"
  by code_simp

text \<open>
  C2. After a successful run of \<^verbatim>\<open>main\<close>, every entry of the table has its file in the
  directory \<^verbatim>\<open>LocationTracker/Assets.xcassets/AppIcon.appiconset\<close>: a PNG of the image
  drawn for the size of the entry, so of that size in both dimensions. The table has 14
  distinct file names, and its entries are those of the table of the specification.
\<close>

theorem main_writes_all_icons:
  assumes "main w = (Inr (), w')"
  shows "(\<forall>e\<in>set icons. \<exists>img.
            files w' (icon_dir @ ''/'' @ snd e) = Some (PNG img)
            \<and> draw_icon (fst e) = Inr img \<and> width img = fst e \<and> height img = fst e)
         \<and> card (snd ` set icons) = 14
         \<and> set icons = set spec_table
         \<and> length spec_table = 14 \<and> distinct (map snd spec_table)"
proof -
  have each: "\<exists>img. files w' (icon_dir @ ''/'' @ snd e) = Some (PNG img)
            \<and> draw_icon (fst e) = Inr img \<and> width img = fst e \<and> height img = fst e"
    if e: "e \<in> set icons" for e
  proof -
    from main_file_of_entry [OF assms e] obtain img where d: "draw_icon (fst e) = Inr img"
      and f: "files w' (table_path e) = Some (PNG img)" by blast
    from f have "files w' (icon_dir @ ''/'' @ snd e) = Some (PNG img)"
      by (simp only: icons_table_path [OF e])
    with d draw_icon_dims [OF d] show ?thesis by blast
  qed
  then have "\<forall>e\<in>set icons. \<exists>img.
            files w' (icon_dir @ ''/'' @ snd e) = Some (PNG img)
            \<and> draw_icon (fst e) = Inr img \<and> width img = fst e \<and> height img = fst e"
    by blast
  with icons_names_card icons_spec_table spec_table_shape show ?thesis
    by (intro conjI) simp_all
qed

theorem main_writes_all_icons_witness:
  "\<exists>w'. main fresh_world = (Inr (), w')
     \<and> (120, ''Icon-App-60x60@2x.png'') \<in> set icons
     \<and> (\<exists>img. files w' (icon_dir @ ''/'' @ ''Icon-App-60x60@2x.png'') = Some (PNG img)
           \<and> draw_icon 120 = Inr img \<and> width img = 120 \<and> height img = 120)"
proof -
  from main_fresh obtain w' where m: "main fresh_world = (Inr (), w')"
    by blast
  from main_writes_all_icons [OF m]
  have "\<forall>e\<in>set icons. \<exists>img.
            files w' (icon_dir @ ''/'' @ snd e) = Some (PNG img)
            \<and> draw_icon (fst e) = Inr img \<and> width img = fst e \<and> height img = fst e"
    by (rule conjunct1)
  from bspec [OF this icons_has_critical]
  have "\<exists>img. files w' (icon_dir @ ''/'' @ ''Icon-App-60x60@2x.png'') = Some (PNG img)
           \<and> draw_icon 120 = Inr img \<and> width img = 120 \<and> height img = 120"
    by (simp only: fst_conv snd_conv)
  with m icons_has_critical show ?thesis by blast
qed

text \<open>
  C9. The batch is idempotent and deterministic. A second run after a successful run
  succeeds as well and leaves every file as the first run left it; and the content of the
  files of the table after a successful run is the same whatever the environment was
  before. (A stored PNG is modelled as the image it encodes: the encoder is taken to be a
  function of the image.)
\<close>

theorem main_rerun_identical:
  assumes "main w = (Inr (), w1)" "main v = (Inr (), v1)"
  shows "(\<exists>w2. main w1 = (Inr (), w2) \<and> files w2 = files w1)
         \<and> (\<forall>e\<in>set icons. files v1 (table_path e) = files w1 (table_path e))"
proof (rule conjI)
  from main_files [OF assms(1)] obtain u1 where c1: "create_each icons w = (Inr (), u1)"
    and co: "can_open w1 = can_open w" by blast
  from create_each_success_can_open [OF c1] co
  have "list_all (\<lambda>e. can_open w1 (table_path e)) icons" by simp
  moreover from main_encodes [OF assms(1)]
  have "can_encode w1 msg_all_generated" "can_encode w1 msg_critical" by simp_all
  ultimately obtain w2 where m2: "main w1 = (Inr (), w2)"
    using main_ok [of w1] by blast
  from main_files [OF m2] obtain u2 where c2: "create_each icons w1 = (Inr (), u2)"
    and f2: "files w2 = files u2" by blast
  have "files w2 p = files w1 p" for p
  proof (cases "p \<in> table_path ` set icons")
    case True
    then obtain e where e: "e \<in> set icons" and p: "p = table_path e" by blast
    from main_file_of_entry [OF assms(1) e] main_file_of_entry [OF m2 e] p
    show ?thesis by auto
  next
    case False
    from create_each_untouched [OF False, of w1] c2 f2 show ?thesis by simp
  qed
  then have "files w2 = files w1" by (rule ext)
  with m2 show "\<exists>w2. main w1 = (Inr (), w2) \<and> files w2 = files w1" by blast
next
  show "\<forall>e\<in>set icons. files v1 (table_path e) = files w1 (table_path e)"
  proof
    fix e assume e: "e \<in> set icons"
    from main_file_of_entry [OF assms(1) e] main_file_of_entry [OF assms(2) e]
    show "files v1 (table_path e) = files w1 (table_path e)" by auto
  qed
qed

theorem main_rerun_identical_witness:
  "\<exists>w1 v1. main fresh_world = (Inr (), w1)
     \<and> main (fresh_world\<lparr>files := [''notes.txt'' \<mapsto> Damaged]\<rparr>) = (Inr (), v1)
     \<and> (\<exists>w2. main w1 = (Inr (), w2) \<and> files w2 = files w1)
     \<and> (120, ''Icon-App-60x60@2x.png'') \<in> set icons
     \<and> files v1 (table_path (120, ''Icon-App-60x60@2x.png''))
         = files w1 (table_path (120, ''Icon-App-60x60@2x.png''))"
proof -
  from main_fresh obtain w1 where m: "main fresh_world = (Inr (), w1)"
    by blast
  have "\<exists>v1. main (fresh_world\<lparr>files := [''notes.txt'' \<mapsto> Damaged]\<rparr>) = (Inr (), v1)"
  proof (rule main_ok)
    show "list_all (\<lambda>e. can_open (fresh_world\<lparr>files := [''notes.txt'' \<mapsto> Damaged]\<rparr>)
            (table_path e)) icons"
      by (simp add: fresh_world_def list_all_iff)
  qed (simp_all add: fresh_world_def)
  then obtain v1
    where mv: "main (fresh_world\<lparr>files := [''notes.txt'' \<mapsto> Damaged]\<rparr>) = (Inr (), v1)"
    by blast
  from main_rerun_identical [OF m mv] icons_has_critical m mv show ?thesis
    by blast
qed

subsection \<open>A run that fails\<close>

lemma script_status:
  "fst (script w) = 0 \<longleftrightarrow> (\<exists>w'. main w = (Inr (), w'))"
  by (auto simp: script_def split: prod.splits sum.splits)

lemma main_success_can_open:
  assumes "main w = (Inr (), w')"
  shows "list_all (\<lambda>e. can_open w (table_path e)) icons"
proof -
  from assms obtain w1 where "create_each icons w = (Inr (), w1)"
    by (auto simp: main_success_iff)
  then show ?thesis by (rule create_each_success_can_open)
qed

text \<open>
  C5. If the entry at position \<open>k\<close> of the table is the first one whose file cannot be
  written, \<^verbatim>\<open>main\<close> stops there with the \<^verbatim>\<open>OSError\<close> of that file: the environment is
  the one that the first \<open>k\<close> entries alone leave, so \<open>k\<close> progress lines and no summary
  are printed, and no file outside the first \<open>k\<close> entries is touched; the exit status is
  1. The exit status is 0 exactly when every file of the table can be written.
\<close>

theorem main_stops_at_first_failure:
  assumes "k < length icons"
    "list_all (\<lambda>e. can_open w (table_path e)) (take k icons)"
    "\<not> can_open w (table_path (icons ! k))"
  shows "(\<exists>w'. create_each (take k icons) w = (Inr (), w')
            \<and> main w = (Inl (OSError (table_path (icons ! k))), w')
            \<and> script w = (1, w')
            \<and> stdout w' = stdout w @ map created_line (take k icons)
            \<and> (\<forall>p. p \<notin> table_path ` set (take k icons) \<longrightarrow> files w' p = files w p))
         \<and> (fst (script w) = 0 \<longleftrightarrow> list_all (\<lambda>e. can_open w (table_path e)) icons)"
proof (rule conjI)
  have split: "icons = take k icons @ icons ! k # drop (Suc k) icons"
    using assms(1) by (simp add: id_take_nth_drop)
  have pos: "list_all plain_entry (take k icons)"
    using icons_plain by (auto simp: list_all_iff dest: in_set_takeD)
  have posk: "plain_entry (icons ! k)"
    using icons_plain assms(1) by (simp add: list_all_iff)
  from create_each_all_ok [OF pos assms(2)] obtain w' where
    pre: "create_each (take k icons) w = (Inr (), w')"
    and out: "stdout w' = stdout w @ map created_line (take k icons)"
    and co: "can_open w' = can_open w" by blast
  from assms(3) co have blocked: "\<not> can_open w' (table_path (icons ! k))" by simp
  have "create_each icons w = create_each (take k icons @ icons ! k # drop (Suc k) icons) w"
    using split by simp
  also have "\<dots> = create_each (icons ! k # drop (Suc k) icons) w'"
    by (simp only: create_each_append pre prod.case sum.case)
  also have "\<dots> = (Inl (OSError (table_path (icons ! k))), w')"
    by (rule create_each_Cons_blocked [OF posk blocked])
  finally have loop: "create_each icons w = (Inl (OSError (table_path (icons ! k))), w')" .
  then have m: "main w = (Inl (OSError (table_path (icons ! k))), w')"
    by (simp add: main_def)
  then have s: "script w = (1, w')"
    by (simp add: script_def)
  have keep: "\<forall>p. p \<notin> table_path ` set (take k icons) \<longrightarrow> files w' p = files w p"
  proof (intro allI impI)
    fix p assume "p \<notin> table_path ` set (take k icons)"
    from create_each_untouched [OF this, of w] pre show "files w' p = files w p" by simp
  qed
  from pre m s out keep
  show "\<exists>w'. create_each (take k icons) w = (Inr (), w')
            \<and> main w = (Inl (OSError (table_path (icons ! k))), w')
            \<and> script w = (1, w')
            \<and> stdout w' = stdout w @ map created_line (take k icons)
            \<and> (\<forall>p. p \<notin> table_path ` set (take k icons) \<longrightarrow> files w' p = files w p)"
    by blast
next
  have "icons ! k \<in> set icons"
    using assms(1) by simp
  with assms(3) have "\<not> list_all (\<lambda>e. can_open w (table_path e)) icons"
    by (auto simp: list_all_iff)
  then show "fst (script w) = 0 \<longleftrightarrow> list_all (\<lambda>e. can_open w (table_path e)) icons"
    using main_success_can_open [of w] by (auto simp: script_status)
qed

lemma icons_length: "length icons = 17"
  by code_simp

lemma blocked_world_prefix:
  "list_all (\<lambda>e. can_open blocked_world (table_path e)) (take 3 icons)"
  by (simp add: blocked_world_def fresh_world_def icons_def table_path_def os_path_join_def
      icon_dir_def)

lemma blocked_world_fourth:
  "\<not> can_open blocked_world (table_path (icons ! 3))"
  by (simp add: blocked_world_def fresh_world_def icons_def table_path_def os_path_join_def
      icon_dir_def)

lemma later_path_not_in_prefix:
  "table_path (icons ! 4) \<notin> table_path ` set (take 3 icons)"
  by (simp add: icons_def table_path_def os_path_join_def icon_dir_def)

theorem main_stops_at_first_failure_witness:
  "(3::nat) < length icons
   \<and> list_all (\<lambda>e. can_open blocked_world (table_path e)) (take 3 icons)
   \<and> \<not> can_open blocked_world (table_path (icons ! 3))
   \<and> (\<exists>w'. create_each (take 3 icons) blocked_world = (Inr (), w')
          \<and> main blocked_world = (Inl (OSError (table_path (icons ! 3))), w')
          \<and> script blocked_world = (1, w')
          \<and> stdout w' = stdout blocked_world @ map created_line (take 3 icons)
          \<and> table_path (icons ! 4) \<notin> table_path ` set (take 3 icons)
          \<and> files w' (table_path (icons ! 4)) = files blocked_world (table_path (icons ! 4)))
   \<and> fst (script blocked_world) \<noteq> 0"
proof -
  have k: "(3::nat) < length icons" by (simp add: icons_length)
  from main_stops_at_first_failure [OF k blocked_world_prefix blocked_world_fourth]
  obtain w' where r: "create_each (take 3 icons) blocked_world = (Inr (), w')"
      "main blocked_world = (Inl (OSError (table_path (icons ! 3))), w')"
      "script blocked_world = (1, w')"
      "stdout w' = stdout blocked_world @ map created_line (take 3 icons)"
    and keep: "\<forall>p. p \<notin> table_path ` set (take 3 icons) \<longrightarrow> files w' p = files blocked_world p"
    by blast
  from keep later_path_not_in_prefix
  have f: "files w' (table_path (icons ! 4)) = files blocked_world (table_path (icons ! 4))"
    by blast
  from r(3) have "fst (script blocked_world) \<noteq> 0" by simp
  with k blocked_world_prefix blocked_world_fourth r later_path_not_in_prefix f
  show ?thesis by blast
qed

subsection \<open>The repeated entries\<close>

lemma create_each_repeat:
  assumes "list_all plain_entry xs" "plain_entry e" "create_each xs w = (Inr (), w1)"
    "e \<in> set xs" "\<forall>e'\<in>set xs. table_path e' = table_path e \<longrightarrow> fst e' = fst e"
  shows "\<exists>w2. create_each (xs @ [e]) w = (Inr (), w2) \<and> files w2 = files w1
               \<and> stdout w2 = stdout w1 @ [created_line e]"
proof -
  from create_each_success_can_open [OF assms(3)] assms(4)
  have "can_open w (table_path e)" by (simp add: list_all_iff)
  moreover from create_each_can_open [of xs w] assms(3) have "can_open w1 = can_open w" by simp
  ultimately have op: "can_open w1 (table_path e)" by simp
  from create_each_Cons_ok [OF assms(2) op, of "[]"] obtain img where
    d: "draw_icon (fst e) = Inr img" and
    step: "create_each [e] w1 =
             (Inr (), w1\<lparr>files := (files w1)(table_path e \<mapsto> PNG img),
                         stdout := stdout w1 @ [created_line e]\<rparr>)"
    by auto
  from create_each_files [OF assms(1) assms(3) assms(4) assms(5)] d
  have "files w1 (table_path e) = Some (PNG img)" by auto
  then have same: "(files w1)(table_path e \<mapsto> PNG img) = files w1"
    by (rule map_upd_triv)
  have "create_each (xs @ [e]) w = create_each [e] w1"
    by (simp only: create_each_append assms(3) prod.case sum.case)
  with step same show ?thesis by simp
qed

lemma icons_counts:
  "count_list icons (40, ''Icon-App-20x20@2x.png'') = 2
   \<and> count_list icons (58, ''Icon-App-29x29@2x.png'') = 2
   \<and> count_list icons (80, ''Icon-App-40x40@2x.png'') = 2
   \<and> [e \<leftarrow> remdups icons. count_list icons e \<noteq> 1]
       = [(40, ''Icon-App-20x20@2x.png''), (58, ''Icon-App-29x29@2x.png''),
          (80, ''Icon-App-40x40@2x.png'')]
   \<and> length (remdups icons) = 14"
  by code_simp

lemma icons_repeats:
  "icons ! 9 = icons ! 0 \<and> icons ! 11 = icons ! 2 \<and> icons ! 13 = icons ! 4
   \<and> [j \<leftarrow> [0..<length icons]. icons ! j \<in> set (take j icons)] = [9, 11, 13]"
  by code_simp

lemma main_prefix_ok:
  assumes "main w = (Inr (), w')"
  shows "\<exists>w1. create_each (take j icons) w = (Inr (), w1)"
proof -
  from main_success_can_open [OF assms]
  have "list_all (\<lambda>e. can_open w (table_path e)) (take j icons)"
    by (auto simp: list_all_iff dest: in_set_takeD)
  moreover have "list_all plain_entry (take j icons)"
    using icons_plain by (auto simp: list_all_iff dest: in_set_takeD)
  ultimately show ?thesis
    using create_each_all_ok [of "take j icons" w] by blast
qed

lemma main_repeat_step:
  assumes "main w = (Inr (), w')" "j < length icons" "icons ! j \<in> set (take j icons)"
  shows "\<exists>w1 w2. create_each (take j icons) w = (Inr (), w1)
           \<and> create_each (take (Suc j) icons) w = (Inr (), w2)
           \<and> files w2 = files w1
           \<and> stdout w2 = stdout w1 @ [created_line (icons ! j)]"
proof -
  from main_prefix_ok [OF assms(1), of j] obtain w1
    where pre: "create_each (take j icons) w = (Inr (), w1)" by blast
  have pos: "list_all plain_entry (take j icons)"
    using icons_plain by (auto simp: list_all_iff dest: in_set_takeD)
  have mem: "icons ! j \<in> set icons"
    using assms(2) by simp
  have posj: "plain_entry (icons ! j)"
    using icons_plain mem by (simp add: list_all_iff)
  have fn: "\<forall>e'\<in>set (take j icons).
              table_path e' = table_path (icons ! j) \<longrightarrow> fst e' = fst (icons ! j)"
    using icons_path_functional [OF mem] by (auto dest: in_set_takeD)
  from create_each_repeat [OF pos posj pre assms(3) fn] obtain w2 where
    "create_each (take j icons @ [icons ! j]) w = (Inr (), w2)" "files w2 = files w1"
    "stdout w2 = stdout w1 @ [created_line (icons ! j)]" by blast
  with pre assms(2) show ?thesis
    by (auto simp: take_Suc_conv_app_nth)
qed

text \<open>
  C10. The table has 17 entries, and three of them are exact repetitions, size and file
  name, of an earlier entry: (40, Icon-App-20x20@2x.png), (58, Icon-App-29x29@2x.png) and
  (80, Icon-App-40x40@2x.png) each occur twice, at the positions 0 and 9, 2 and 11, 4 and
  13; every other entry occurs once, which leaves 14 distinct entries and 14 distinct
  files. A successful run prints the progress line of each of the 17 entries, in table
  order, adds exactly the 14 files to those that existed, and at each of the three
  repetitions writes a file again without changing any content.
\<close>

theorem icons_exact_duplicates:
  assumes "main w = (Inr (), w')"
  shows "length icons = 17
         \<and> count_list icons (40, ''Icon-App-20x20@2x.png'') = 2
         \<and> count_list icons (58, ''Icon-App-29x29@2x.png'') = 2
         \<and> count_list icons (80, ''Icon-App-40x40@2x.png'') = 2
         \<and> [e \<leftarrow> remdups icons. count_list icons e \<noteq> 1]
             = [(40, ''Icon-App-20x20@2x.png''), (58, ''Icon-App-29x29@2x.png''),
                (80, ''Icon-App-40x40@2x.png'')]
         \<and> length (remdups icons) = 14
         \<and> icons ! 9 = icons ! 0 \<and> icons ! 11 = icons ! 2 \<and> icons ! 13 = icons ! 4
         \<and> card (table_path ` set icons) = 14
         \<and> stdout w' = stdout w @ map created_line icons @ [msg_all_generated, msg_critical]
         \<and> length (map created_line icons) = 17
         \<and> dom (files w') = dom (files w) \<union> table_path ` set icons
         \<and> (\<forall>j\<in>{9, 11, 13}.
               \<exists>w1 w2. create_each (take j icons) w = (Inr (), w1)
                 \<and> create_each (take (Suc j) icons) w = (Inr (), w2)
                 \<and> files w2 = files w1
                 \<and> stdout w2 = stdout w1 @ [created_line (icons ! j)])"
proof -
  from main_files [OF assms] obtain u where c: "create_each icons w = (Inr (), u)"
    and f: "files w' = files u"
    and o: "stdout w' = stdout u @ [msg_all_generated, msg_critical]" by blast
  from create_each_all_ok [OF icons_plain main_success_can_open [OF assms]] c
  have "stdout u = stdout w @ map created_line icons" by auto
  with o have out: "stdout w' = stdout w @ map created_line icons @ [msg_all_generated, msg_critical]"
    by simp
  from create_each_dom [OF icons_plain c] f
  have dom: "dom (files w') = dom (files w) \<union> table_path ` set icons" by simp
  have rep: "\<exists>w1 w2. create_each (take j icons) w = (Inr (), w1)
                 \<and> create_each (take (Suc j) icons) w = (Inr (), w2)
                 \<and> files w2 = files w1
                 \<and> stdout w2 = stdout w1 @ [created_line (icons ! j)]"
    if j: "j \<in> {9, 11, 13}" for j
  proof -
    from icons_repeats have "set [j \<leftarrow> [0..<length icons]. icons ! j \<in> set (take j icons)] = {9, 11, 13}"
      by simp
    with j have "j \<in> set [j \<leftarrow> [0..<length icons]. icons ! j \<in> set (take j icons)]"
      by blast
    then have "j < length icons" "icons ! j \<in> set (take j icons)"
      by simp_all
    from main_repeat_step [OF assms this] show ?thesis .
  qed
  have len: "length (map created_line icons) = 17"
    by (simp add: icons_length)
  from icons_length icons_counts icons_repeats icons_paths_card out len dom rep
  show ?thesis by (intro conjI ballI) simp_all
qed

theorem icons_exact_duplicates_witness:
  "\<exists>w'. main fresh_world = (Inr (), w')
     \<and> length icons = 17
     \<and> icons ! 9 = icons ! 0
     \<and> card (table_path ` set icons) = 14
     \<and> stdout w' = stdout fresh_world @ map created_line icons @ [msg_all_generated, msg_critical]
     \<and> dom (files w') = dom (files fresh_world) \<union> table_path ` set icons
     \<and> (9::nat) \<in> {9, 11, 13}
     \<and> (\<exists>w1 w2. create_each (take 9 icons) fresh_world = (Inr (), w1)
           \<and> create_each (take (Suc 9) icons) fresh_world = (Inr (), w2)
           \<and> files w2 = files w1
           \<and> stdout w2 = stdout w1 @ [created_line (icons ! 9)])"
proof -
  from main_fresh obtain w' where m: "main fresh_world = (Inr (), w')"
    by blast
  have nine: "(9::nat) \<in> {9, 11, 13}" by simp
  from icons_exact_duplicates [OF m]
  have a: "length icons = 17" and b: "icons ! 9 = icons ! 0"
    and c: "card (table_path ` set icons) = 14"
    and d: "stdout w' = stdout fresh_world @ map created_line icons @ [msg_all_generated, msg_critical]"
    and e: "dom (files w') = dom (files fresh_world) \<union> table_path ` set icons"
    and r: "\<forall>j\<in>{9, 11, 13}.
               \<exists>w1 w2. create_each (take j icons) fresh_world = (Inr (), w1)
                 \<and> create_each (take (Suc j) icons) fresh_world = (Inr (), w2)
                 \<and> files w2 = files w1
                 \<and> stdout w2 = stdout w1 @ [created_line (icons ! j)]"
    by blast+
  from bspec [OF r nine] m a b c d e nine show ?thesis by blast
qed

end
